theory Spec2Isabelle
  imports Complex_Main "HOL-Library.Word"
begin

unbundle bit_operations_syntax

section \<open>Audio capture and classification pipeline of cc1352/ei_main.cpp\<close>

text \<open>
  The development follows \<^verbatim>\<open>src/cc1352/ei_main.cpp\<close>: the three statically allocated
  buffers and transactions, the two transaction lists, the read-completion callback, the
  pull accessor handed to the classifier, and the treatment loop of \<^verbatim>\<open>controlThread\<close>
  with its two output lines. Global variables of the file are the fields of one record that
  every function takes and returns.
\<close>

subsection \<open>Constants\<close>

abbreviation (input) NUMBUFS :: nat where "NUMBUFS \<equiv> 3"
abbreviation (input) BUFSIZE :: nat where "BUFSIZE \<equiv> 11200"
abbreviation (input) FEATURE_LENGTH :: nat where "FEATURE_LENGTH \<equiv> BUFSIZE div 2"

abbreviation (input) GO_LABEL_INDEX :: nat where "GO_LABEL_INDEX \<equiv> 0"
abbreviation (input) NOISE_LABEL_INDEX :: nat where "NOISE_LABEL_INDEX \<equiv> 1"
abbreviation (input) STOP_LABEL_INDEX :: nat where "STOP_LABEL_INDEX \<equiv> 2"

subsection \<open>Data\<close>

text \<open>The addresses of \<^verbatim>\<open>buf1\<close>, \<^verbatim>\<open>buf2\<close>, \<^verbatim>\<open>buf3\<close> and of
  \<^verbatim>\<open>i2sTransaction1\<close>, \<^verbatim>\<open>i2sTransaction2\<close>, \<^verbatim>\<open>i2sTransaction3\<close>.\<close>

datatype buf = Buf1 | Buf2 | Buf3

datatype txn = I2sTransaction1 | I2sTransaction2 | I2sTransaction3

definition i2sBufList :: "buf list" where
  "i2sBufList = [Buf1, Buf2, Buf3]"

definition i2sTransactionList :: "txn list" where
  "i2sTransactionList = [I2sTransaction1, I2sTransaction2, I2sTransaction3]"

text \<open>The two fields of \<^verbatim>\<open>I2S_Transaction\<close> that the file writes; a null pointer is
  \<open>None\<close>. The queue linkage of a transaction is its position in the list that holds it.\<close>

record I2S_Transaction =
  bufPtr :: "buf option"
  bufSize :: nat

text \<open>A C \<^verbatim>\<open>float\<close>: a finite value, an infinity or a NaN. Finite values are taken from
  the reals, which include every representable one.\<close>

datatype c_float = Finite real | PosInf | NegInf | NaN

text \<open>The comparison \<^verbatim>\<open>x > c\<close> of a float with a finite constant: false for a NaN.\<close>

fun float_gt :: "c_float \<Rightarrow> real \<Rightarrow> bool" where
  "float_gt (Finite x) c = (c < x)"
| "float_gt PosInf c = True"
| "float_gt NegInf c = False"
| "float_gt NaN c = False"

record ei_impulse_result_classification_t =
  label :: string
  value' :: c_float

record ei_impulse_result_t =
  classification :: "nat \<Rightarrow> ei_impulse_result_classification_t"

datatype fault = NullPointer | OutOfBounds

record signal_t =
  total_length :: nat
  get_data :: "nat \<Rightarrow> nat \<Rightarrow> c_float list \<Rightarrow> fault + (int \<times> c_float list)"

text \<open>\<^verbatim>\<open>run_classifier\<close> is the classifier engine, outside this file: a function from the
  signal to its status code and result.\<close>

type_synonym classifier = "signal_t \<Rightarrow> int \<times> ei_impulse_result_t"

text \<open>The globals of the file. \<^verbatim>\<open>DOUT_Control\<close> and \<^verbatim>\<open>DOE\<close> are the 32-bit registers
  at \<^verbatim>\<open>GPIO_BASE + 0x80\<close> and \<^verbatim>\<open>GPIO_BASE + 0xD0\<close>; \<open>console\<close> collects what
  \<^verbatim>\<open>ei_printf\<close> prints; \<open>bufs\<close> is the contents of the three byte buffers.\<close>

record globals =
  i2sReadList :: "txn list"
  treatmentList :: "txn list"
  semDataReadyForTreatment :: nat
  semErrorCallback :: nat
  i2sTransaction :: "txn \<Rightarrow> I2S_Transaction"
  bufs :: "buf \<Rightarrow> 8 word list"
  features :: "buf option"
  DOUT_Control :: "32 word"
  DOE :: "32 word"
  console :: "string list"

subsection \<open>List utility\<close>

text \<open>Modelled from the spec: the \<^verbatim>\<open>List_*\<close> functions of the driver library
  (\<^verbatim>\<open>List_clearList\<close>, \<^verbatim>\<open>List_head\<close>, \<^verbatim>\<open>List_prev\<close>, \<^verbatim>\<open>List_remove\<close>,
  \<^verbatim>\<open>List_put\<close>) are not part of the sources. The spec describes ordered FIFO queues of
  transaction descriptors with a head that is read without removal, explicit removal of a
  given transaction, appending at the tail, and a predecessor lookup in the capture queue.
  A queue is the list of its elements from head to tail. \<^verbatim>\<open>List_prev\<close> takes the list in
  which the element is looked up: the element before its first occurrence, if any.\<close>

definition List_clearList :: "'a list" where
  "List_clearList = []"

definition List_head :: "'a list \<Rightarrow> 'a option" where
  "List_head q = (case q of [] \<Rightarrow> None | x # _ \<Rightarrow> Some x)"

fun List_prev :: "'a list \<Rightarrow> 'a \<Rightarrow> 'a option" where
  "List_prev [] e = None"
| "List_prev [x] e = None"
| "List_prev (x # y # q) e =
     (if x = e then None else if y = e then Some x else List_prev (y # q) e)"

definition List_remove :: "'a list \<Rightarrow> 'a \<Rightarrow> 'a list" where
  "List_remove q e = remove1 e q"

definition List_put :: "'a list \<Rightarrow> 'a \<Rightarrow> 'a list" where
  "List_put q e = q @ [e]"

subsection \<open>Semaphores and console\<close>

text \<open>A counting semaphore is its count. \<^verbatim>\<open>sem_wait\<close> does not return while the count is
  zero (\<open>None\<close>); otherwise it returns 0 and the count less one.\<close>

definition sem_post :: "nat \<Rightarrow> nat" where
  "sem_post n = n + 1"

definition sem_wait :: "nat \<Rightarrow> (int \<times> nat) option" where
  "sem_wait n = (if n = 0 then None else Some (0, n - 1))"

definition CRLF :: string where
  "CRLF = [CHR 0x0D, CHR 0x0A]"

definition ei_printf :: "string \<Rightarrow> globals \<Rightarrow> globals" where
  "ei_printf msg s = s\<lparr>console := console s @ [msg]\<rparr>"

subsection \<open>Callbacks of the audio interface\<close>

text \<open>\<^verbatim>\<open>I2SerrCallback\<close>: its only statement is commented out.\<close>

definition I2SerrCallback :: "int \<Rightarrow> txn \<Rightarrow> globals \<Rightarrow> globals" where
  "I2SerrCallback status transactionPtr s = s"

definition I2SwriteCallback :: "int \<Rightarrow> txn \<Rightarrow> globals \<Rightarrow> globals" where
  "I2SwriteCallback status transactionPtr s = s"

text \<open>\<^verbatim>\<open>I2SreadCallback\<close>: the transaction before the one just started has finished; it
  moves from the read list to the treatment list and the semaphore is posted.\<close>

definition I2SreadCallback :: "int \<Rightarrow> txn \<Rightarrow> globals \<Rightarrow> globals" where
  "I2SreadCallback status transactionPtr s =
     (case List_prev (i2sReadList s) transactionPtr of
        None \<Rightarrow> s
      | Some transactionFinished \<Rightarrow>
          (let s1 = s\<lparr>i2sReadList := List_remove (i2sReadList s) transactionFinished\<rparr>;
               s2 = s1\<lparr>treatmentList := List_put (treatmentList s1) transactionFinished\<rparr>
           in s2\<lparr>semDataReadyForTreatment := sem_post (semDataReadyForTreatment s2)\<rparr>))"

subsection \<open>Pull accessor of the classifier adapter\<close>

text \<open>Modelled from the spec: \<^verbatim>\<open>arm_q15_to_float\<close> of the DSP library is not part of the
  sources. The spec has it convert each 16-bit fixed-point sample to floating point; a q15
  sample \<open>x\<close> stands for \<open>x / 2^15\<close>, which a \<^verbatim>\<open>float\<close> holds exactly.\<close>

definition q15_to_float :: "16 word \<Rightarrow> c_float" where
  "q15_to_float x = Finite (real_of_int (sint x) / 32768)"

text \<open>The \<open>i\<close>-th \<^verbatim>\<open>int16_t\<close> of a byte buffer on the little-endian target: the byte at
  \<open>2 * i\<close> is the low half.\<close>

definition int16_at :: "8 word list \<Rightarrow> nat \<Rightarrow> 16 word" where
  "int16_at bytes i = push_bit 8 (ucast (bytes ! (2 * i + 1))) OR ucast (bytes ! (2 * i))"

definition arm_q15_to_float ::
    "8 word list \<Rightarrow> nat \<Rightarrow> c_float list \<Rightarrow> nat \<Rightarrow> fault + c_float list" where
  "arm_q15_to_float bytes offset out blockSize =
     (if 2 * (offset + blockSize) \<le> length bytes \<and> blockSize \<le> length out
      then Inr (map (\<lambda>i. q15_to_float (int16_at bytes (offset + i))) [0..<blockSize]
                @ drop blockSize out)
      else Inl OutOfBounds)"

text \<open>\<^verbatim>\<open>raw_feature_get_data\<close> reads the buffer that the global \<^verbatim>\<open>features\<close> points to
  and writes \<open>length\<close> floats at the start of the output region. The source checks
  nothing: a null \<^verbatim>\<open>features\<close>, a read past the buffer and a write past the region are
  undefined in C and are faults here.\<close>

definition raw_feature_get_data ::
    "globals \<Rightarrow> nat \<Rightarrow> nat \<Rightarrow> c_float list \<Rightarrow> fault + (int \<times> c_float list)" where
  "raw_feature_get_data s offset len out_ptr =
     (case features s of
        None \<Rightarrow> Inl NullPointer
      | Some b \<Rightarrow>
          (case arm_q15_to_float (bufs s b) offset out_ptr len of
             Inl e \<Rightarrow> Inl e
           | Inr out' \<Rightarrow> Inr (0, out')))"

subsection \<open>Setup\<close>

text \<open>Outcomes of the calls into the codec, the interface and the operating system that the
  setup code tests. On a failure the source spins in \<^verbatim>\<open>while(1)\<close>: the setup does not
  return, which is \<open>None\<close>.\<close>

record setup_env =
  AudioCodec_open_ok :: bool
  AudioCodec_config_ok :: bool
  I2S_open_ok :: bool
  sem_init_retc :: int

definition AudioCodec_setup :: "setup_env \<Rightarrow> globals \<Rightarrow> globals option" where
  "AudioCodec_setup env s =
     (if \<not> AudioCodec_open_ok env then None
      else if \<not> AudioCodec_config_ok env then None
      else Some s)"

text \<open>\<^verbatim>\<open>I2S_Transaction_init\<close> resets a descriptor; both fields are overwritten next.\<close>

definition I2S_Transaction_init :: I2S_Transaction where
  "I2S_Transaction_init = \<lparr>bufPtr = None, bufSize = 0\<rparr>"

definition I2S_setup_body :: "nat \<Rightarrow> globals \<Rightarrow> globals" where
  "I2S_setup_body k s =
     (let t = i2sTransactionList ! k;
          s1 = s\<lparr>i2sTransaction := (i2sTransaction s)(t := I2S_Transaction_init)\<rparr>;
          s2 = s1\<lparr>i2sTransaction :=
                 (i2sTransaction s1)(t := (i2sTransaction s1 t)\<lparr>bufPtr := Some (i2sBufList ! k)\<rparr>)\<rparr>;
          s3 = s2\<lparr>i2sTransaction :=
                 (i2sTransaction s2)(t := (i2sTransaction s2 t)\<lparr>bufSize := BUFSIZE\<rparr>)\<rparr>
      in s3\<lparr>i2sReadList := List_put (i2sReadList s3) t\<rparr>)"

text \<open>\<^verbatim>\<open>I2S_setup\<close>: after the lists are cleared the loop runs \<open>k = 0, 1, 2\<close>. Setting the
  read queue head and starting the clocks and the read act on the interface only.\<close>

definition I2S_setup :: "setup_env \<Rightarrow> globals \<Rightarrow> globals option" where
  "I2S_setup env s =
     (if \<not> I2S_open_ok env then None
      else
        (let s1 = s\<lparr>i2sReadList := List_clearList\<rparr>;
             s2 = s1\<lparr>treatmentList := List_clearList\<rparr>
         in Some (fold I2S_setup_body [0..<NUMBUFS] s2)))"

text \<open>The part of \<^verbatim>\<open>controlThread\<close> before the treatment loop.\<close>

definition controlThread_setup :: "setup_env \<Rightarrow> globals \<Rightarrow> globals option" where
  "controlThread_setup env s =
     (case AudioCodec_setup env s of
        None \<Rightarrow> None
      | Some s1 \<Rightarrow>
          (case I2S_setup env s1 of
             None \<Rightarrow> None
           | Some s2 \<Rightarrow>
               (let s3 = s2\<lparr>semDataReadyForTreatment := 0\<rparr> in
                if sem_init_retc env = - 1 then None
                else
                  (let s4 = s3\<lparr>DOE := DOE s3 OR (push_bit 7 1 OR push_bit 6 1)\<rparr>;
                       s5 = s4\<lparr>DOUT_Control := DOUT_Control s4 OR push_bit 6 1\<rparr>
                   in Some (s5\<lparr>DOUT_Control := DOUT_Control s5 AND NOT (push_bit 7 1)\<rparr>)))))"

subsection \<open>Treatment loop\<close>

text \<open>Lines 323 to 342: the choice among the three branches and the register writes.\<close>

definition actuation :: "ei_impulse_result_t \<Rightarrow> globals \<Rightarrow> globals" where
  "actuation result s =
     (if float_gt (value' (classification result GO_LABEL_INDEX)) (1 / 2) then
        (let s1 = ei_printf (''GO'' @ CRLF) s;
             s2 = s1\<lparr>DOUT_Control := DOUT_Control s1 OR push_bit 7 1\<rparr>
         in s2\<lparr>DOUT_Control := DOUT_Control s2 AND NOT (push_bit 6 1)\<rparr>)
      else if float_gt (value' (classification result STOP_LABEL_INDEX)) (1 / 2) then
        (let s1 = ei_printf (''STOP'' @ CRLF) s;
             s2 = s1\<lparr>DOUT_Control := DOUT_Control s1 AND NOT (push_bit 7 1)\<rparr>
         in s2\<lparr>DOUT_Control := DOUT_Control s2 OR push_bit 6 1\<rparr>)
      else ei_printf (''NOISE'' @ CRLF) s)"

text \<open>What one pass through the body of \<^verbatim>\<open>while(1)\<close> leads to: the wait does not return,
  the thread spins in an inner \<^verbatim>\<open>while(1)\<close>, the thread function returns a value, or the
  loop goes round.\<close>

datatype 'a loop_step = Blocked | Halt 'a | Return int 'a | Next 'a

text \<open>The body of \<^verbatim>\<open>if(transactionToTreat != NULL)\<close>. The frame size of the classifier,
  \<^verbatim>\<open>EI_CLASSIFIER_DSP_INPUT_FRAME_SIZE\<close>, comes from a header outside the sources and is a
  parameter; the message printed on a mismatch is kept as its format string.\<close>

definition controlThread_treat ::
    "nat \<Rightarrow> classifier \<Rightarrow> txn \<Rightarrow> globals \<Rightarrow> globals loop_step" where
  "controlThread_treat EI_CLASSIFIER_DSP_INPUT_FRAME_SIZE run_classifier transactionToTreat s =
     (let s1 = s\<lparr>features := bufPtr (i2sTransaction s transactionToTreat)\<rparr> in
      if FEATURE_LENGTH \<noteq> EI_CLASSIFIER_DSP_INPUT_FRAME_SIZE then
        Halt (ei_printf (''The size of your 'features' array is not correct. '' @
                         ''Expected %d items, but had %u'' @ CRLF) s1)
      else
        (let features_signal =
               \<lparr>total_length = FEATURE_LENGTH, get_data = raw_feature_get_data s1\<rparr>;
             (res, result) = run_classifier features_signal;
             s2 = actuation result s1
         in if res \<noteq> 0 then Return 1 (ei_printf (''run_classifier fail.'' @ CRLF) s2)
            else
              (let s3 = s2\<lparr>treatmentList := List_remove (treatmentList s2) transactionToTreat\<rparr>
               in Next (s3\<lparr>i2sReadList := List_put (i2sReadList s3) transactionToTreat\<rparr>))))"

definition controlThread_cycle :: "nat \<Rightarrow> classifier \<Rightarrow> globals \<Rightarrow> globals loop_step" where
  "controlThread_cycle EI_CLASSIFIER_DSP_INPUT_FRAME_SIZE run_classifier s =
     (case sem_wait (semDataReadyForTreatment s) of
        None \<Rightarrow> Blocked
      | Some (retc, n) \<Rightarrow>
          (let s1 = s\<lparr>semDataReadyForTreatment := n\<rparr> in
           if retc = - 1 then Halt (ei_printf (''retc fail.'' @ CRLF) s1)
           else
             (case List_head (treatmentList s1) of
                None \<Rightarrow> Next s1
              | Some transactionToTreat \<Rightarrow>
                  controlThread_treat EI_CLASSIFIER_DSP_INPUT_FRAME_SIZE run_classifier
                    transactionToTreat s1)))"

text \<open>The treatment loop over the classifier's answers to its successive calls. It yields the
  transactions whose treatment was completed, in order, and where the loop stands when the
  answers are used up or the loop is left.\<close>

fun controlThread_loop ::
    "nat \<Rightarrow> classifier list \<Rightarrow> globals \<Rightarrow> txn list \<times> globals loop_step" where
  "controlThread_loop fs [] s = ([], Next s)"
| "controlThread_loop fs (c # cs) s =
     (case controlThread_cycle fs c s of
        Next s' \<Rightarrow>
          (case controlThread_loop fs cs s' of
             (ts, r) \<Rightarrow>
               ((case List_head (treatmentList s) of None \<Rightarrow> [] | Some t \<Rightarrow> [t]) @ ts, r))
      | r \<Rightarrow> ([], r))"

subsection \<open>Top-level run loop\<close>

text \<open>The worker thread as \<^verbatim>\<open>ei_main\<close> sees it.\<close>

datatype thread = Running | Spinning | Exited int | Cancelled

record main_env =
  setdetachstate_retc :: int
  setstacksize_retc :: int
  pthread_create_retc :: int
  sem_init_error_retc :: int

text \<open>\<^verbatim>\<open>ei_main\<close> up to its wait: each failed call spins forever (\<open>None\<close>).\<close>

definition ei_main_start :: "main_env \<Rightarrow> globals \<Rightarrow> globals option" where
  "ei_main_start env s =
     (if setdetachstate_retc env \<noteq> 0 then None
      else if setstacksize_retc env \<noteq> 0 then None
      else if pthread_create_retc env \<noteq> 0 then None
      else
        (let s1 = s\<lparr>semErrorCallback := 0\<rparr> in
         if sem_init_error_retc env = - 1 then None else Some s1))"

text \<open>\<^verbatim>\<open>ei_main\<close> from \<^verbatim>\<open>sem_wait(&semErrorCallback)\<close> on: while the count is zero it
  waits (\<open>None\<close>); once woken it cancels the worker and closes the interface.\<close>

definition ei_main_wait :: "thread \<times> globals \<Rightarrow> (thread \<times> globals) option" where
  "ei_main_wait c =
     (case sem_wait (semErrorCallback (snd c)) of
        None \<Rightarrow> None
      | Some (retc, n) \<Rightarrow> Some (Cancelled, (snd c)\<lparr>semErrorCallback := n\<rparr>))"

subsection \<open>Interleaving of the interface callbacks and the worker\<close>

text \<open>An observation point lies between two steps: a read completion, an interface error,
  or one pass of the worker through its loop. The interface follows the read list from the
  head it was given by \<^verbatim>\<open>I2S_setReadQueueHead\<close>, so the transaction it reports as started
  is in the read list. A worker that waits, spins or has returned takes no step.\<close>

datatype event = Completion int txn | Failure int txn | Cycle classifier

fun fire :: "nat \<Rightarrow> event \<Rightarrow> thread \<times> globals \<Rightarrow> (thread \<times> globals) option" where
  "fire fs (Completion status t) (th, s) =
     (if t \<in> set (i2sReadList s) then Some (th, I2SreadCallback status t s) else None)"
| "fire fs (Failure status t) (th, s) = Some (th, I2SerrCallback status t s)"
| "fire fs (Cycle c) (th, s) =
     (if th \<noteq> Running then None
      else
        (case controlThread_cycle fs c s of
           Blocked \<Rightarrow> None
         | Halt s' \<Rightarrow> Some (Spinning, s')
         | Return r s' \<Rightarrow> Some (Exited r, s')
         | Next s' \<Rightarrow> Some (Running, s')))"

fun exec :: "nat \<Rightarrow> event list \<Rightarrow> thread \<times> globals \<Rightarrow> (thread \<times> globals) option" where
  "exec fs [] c = Some c"
| "exec fs (e # es) c = (case fire fs e c of None \<Rightarrow> None | Some c' \<Rightarrow> exec fs es c')"

text \<open>The state at power-on: zeroed static storage and registers.\<close>

definition power_on :: globals where
  "power_on =
     \<lparr>i2sReadList = [], treatmentList = [], semDataReadyForTreatment = 0,
      semErrorCallback = 0, i2sTransaction = (\<lambda>t. \<lparr>bufPtr = None, bufSize = 0\<rparr>),
      bufs = (\<lambda>b. replicate BUFSIZE 0), features = None, DOUT_Control = 0, DOE = 0,
      console = []\<rparr>"

text \<open>The setup succeeds when every external call does.\<close>

definition setup_ok :: setup_env where
  "setup_ok =
     \<lparr>AudioCodec_open_ok = True, AudioCodec_config_ok = True, I2S_open_ok = True,
      sem_init_retc = 0\<rparr>"

subsection \<open>Invariants\<close>

text \<open>The two lists partition the three transactions, and the read list keeps the
  transaction the interface is filling.\<close>

definition queues_ok :: "globals \<Rightarrow> bool" where
  "queues_ok s \<longleftrightarrow>
     distinct (i2sReadList s) \<and> distinct (treatmentList s) \<and>
     set (i2sReadList s) \<inter> set (treatmentList s) = {} \<and>
     set (i2sReadList s) \<union> set (treatmentList s) = set i2sTransactionList \<and>
     i2sReadList s \<noteq> []"

text \<open>The buffer that \<^verbatim>\<open>I2S_setup\<close> gives each transaction.\<close>

fun buf_of :: "txn \<Rightarrow> buf" where
  "buf_of I2sTransaction1 = Buf1"
| "buf_of I2sTransaction2 = Buf2"
| "buf_of I2sTransaction3 = Buf3"

definition descriptors_ok :: "globals \<Rightarrow> bool" where
  "descriptors_ok s \<longleftrightarrow>
     (\<forall>t. i2sTransaction s t = \<lparr>bufPtr = Some (buf_of t), bufSize = BUFSIZE\<rparr>)"

text \<open>Between two steps the semaphore counts the transactions in the treatment list that
  the worker has not been woken for: all of them while the worker runs its loop.\<close>

definition config_ok :: "thread \<times> globals \<Rightarrow> bool" where
  "config_ok c \<longleftrightarrow>
     queues_ok (snd c) \<and> descriptors_ok (snd c) \<and>
     semDataReadyForTreatment (snd c) \<le> length (treatmentList (snd c)) \<and>
     (fst c = Running \<longrightarrow> semDataReadyForTreatment (snd c) = length (treatmentList (snd c)))"

subsection \<open>Concrete classifier answers\<close>

text \<open>A result with given confidences for the three labels, and a classifier that returns a
  given status and result whatever the signal.\<close>

definition confidences :: "real \<Rightarrow> real \<Rightarrow> real \<Rightarrow> ei_impulse_result_t" where
  "confidences go noise stop =
     \<lparr>classification = (\<lambda>i.
        if i = GO_LABEL_INDEX then \<lparr>label = ''go'', value' = Finite go\<rparr>
        else if i = STOP_LABEL_INDEX then \<lparr>label = ''stop'', value' = Finite stop\<rparr>
        else \<lparr>label = ''noise'', value' = Finite noise\<rparr>)\<rparr>"

definition answers :: "int \<Rightarrow> ei_impulse_result_t \<Rightarrow> classifier" where
  "answers res result = (\<lambda>features_signal. (res, result))"

text \<open>The state in which a successful setup leaves the power-on state, and a classifier
  call that succeeds with a NOISE result.\<close>

definition started :: globals where
  "started =
     power_on\<lparr>i2sReadList := [I2sTransaction1, I2sTransaction2, I2sTransaction3],
       i2sTransaction := (\<lambda>t. \<lparr>bufPtr = Some (buf_of t), bufSize = BUFSIZE\<rparr>),
       DOE := 192, DOUT_Control := 64\<rparr>"

definition noise :: classifier where
  "noise = answers 0 (confidences (1 / 10) (8 / 10) (1 / 10))"


definition main_ok :: main_env where
  "main_ok =
     \<lparr>setdetachstate_retc = 0, setstacksize_retc = 0, pthread_create_retc = 0,
      sem_init_error_retc = 0\<rparr>"

section \<open>Properties\<close>

subsection \<open>Setup\<close>

lemma fold_I2S_setup_body:
  "fold I2S_setup_body [0..<3] s = I2S_setup_body 2 (I2S_setup_body 1 (I2S_setup_body 0 s))"
  by (simp add: upt_rec eval_nat_numeral)

lemma I2S_setup_lists:
  assumes "I2S_setup env s = Some s'"
  shows "i2sReadList s' = [I2sTransaction1, I2sTransaction2, I2sTransaction3]"
    and "treatmentList s' = []"
    and "descriptors_ok s'"
    and "DOUT_Control s' = DOUT_Control s" and "DOE s' = DOE s"
proof -
  from assms have s': "s' = I2S_setup_body 2 (I2S_setup_body 1 (I2S_setup_body 0
      (s\<lparr>i2sReadList := [], treatmentList := []\<rparr>)))"
    by (simp add: I2S_setup_def fold_I2S_setup_body List_clearList_def split: if_splits)
  show "i2sReadList s' = [I2sTransaction1, I2sTransaction2, I2sTransaction3]"
    by (simp add: s' I2S_setup_body_def Let_def List_put_def i2sTransactionList_def)
  show "treatmentList s' = []"
    by (simp add: s' I2S_setup_body_def Let_def)
  show "DOUT_Control s' = DOUT_Control s" "DOE s' = DOE s"
    by (simp_all add: s' I2S_setup_body_def Let_def)
  show "descriptors_ok s'"
    unfolding descriptors_ok_def
  proof
    fix t show "i2sTransaction s' t = \<lparr>bufPtr = Some (buf_of t), bufSize = BUFSIZE\<rparr>"
      by (cases t) (simp_all add: s' I2S_setup_body_def Let_def i2sTransactionList_def
          i2sBufList_def I2S_Transaction_init_def)
  qed
qed

lemma controlThread_setup_cases:
  assumes "controlThread_setup env s = Some s'"
  obtains s2 where "I2S_setup env s = Some s2"
    and "s' = s2\<lparr>semDataReadyForTreatment := 0,
               DOE := DOE s2 OR (push_bit 7 1 OR push_bit 6 1),
               DOUT_Control := (DOUT_Control s2 OR push_bit 6 1) AND NOT (push_bit 7 1)\<rparr>"
  using assms
  by (auto simp: controlThread_setup_def AudioCodec_setup_def Let_def
      split: option.splits if_splits)

lemma controlThread_setup_ok:
  assumes "AudioCodec_open_ok env" "AudioCodec_config_ok env" "I2S_open_ok env"
    "sem_init_retc env \<noteq> - 1"
  shows "\<exists>s'. controlThread_setup env s = Some s'"
  using assms
  by (simp add: controlThread_setup_def AudioCodec_setup_def I2S_setup_def Let_def)

lemma controlThread_setup_state:
  assumes "controlThread_setup env s = Some s'"
  shows "i2sReadList s' = [I2sTransaction1, I2sTransaction2, I2sTransaction3]"
    and "treatmentList s' = []"
    and "semDataReadyForTreatment s' = 0"
    and "descriptors_ok s'"
proof -
  from assms obtain s2 where s2: "I2S_setup env s = Some s2"
    and s': "s' = s2\<lparr>semDataReadyForTreatment := 0,
               DOE := DOE s2 OR (push_bit 7 1 OR push_bit 6 1),
               DOUT_Control := (DOUT_Control s2 OR push_bit 6 1) AND NOT (push_bit 7 1)\<rparr>"
    by (rule controlThread_setup_cases)
  show "i2sReadList s' = [I2sTransaction1, I2sTransaction2, I2sTransaction3]"
    "treatmentList s' = []" "semDataReadyForTreatment s' = 0"
    using I2S_setup_lists(1,2)[OF s2] by (simp_all add: s')
  show "descriptors_ok s'"
    using I2S_setup_lists(3)[OF s2] by (simp add: s' descriptors_ok_def)
qed

text \<open>C10: when the setup of \<^verbatim>\<open>controlThread\<close> returns, which it does whenever the codec,
  the interface and \<^verbatim>\<open>sem_init\<close> succeed, DIO6 and DIO7 are enabled as outputs and the
  lines show the STOP pattern: DIO6 set, DIO7 cleared. No signal has been consumed and
  nothing has been printed.\<close>

theorem initial_actuation_is_STOP:
  assumes "AudioCodec_open_ok env" "AudioCodec_config_ok env" "I2S_open_ok env"
    "sem_init_retc env \<noteq> - 1"
  shows "\<exists>s'. controlThread_setup env s = Some s' \<and>
           bit (DOE s') 6 \<and> bit (DOE s') 7 \<and>
           bit (DOUT_Control s') 6 \<and> \<not> bit (DOUT_Control s') 7 \<and>
           semDataReadyForTreatment s' = 0 \<and> console s' = console s"
proof -
  from assms obtain s' where s': "controlThread_setup env s = Some s'"
    using controlThread_setup_ok by blast
  then obtain s2 where s2: "I2S_setup env s = Some s2"
    and eq: "s' = s2\<lparr>semDataReadyForTreatment := 0,
               DOE := DOE s2 OR (push_bit 7 1 OR push_bit 6 1),
               DOUT_Control := (DOUT_Control s2 OR push_bit 6 1) AND NOT (push_bit 7 1)\<rparr>"
    by (rule controlThread_setup_cases)
  have "console s2 = console s"
    using s2 by (auto simp: I2S_setup_def fold_I2S_setup_body I2S_setup_body_def Let_def split: if_splits)
  then show ?thesis
    by (simp add: s' eq bit_simps)
qed

theorem initial_actuation_is_STOP_witness:
  "\<exists>s'. controlThread_setup setup_ok power_on = Some s' \<and>
           bit (DOE s') 6 \<and> bit (DOE s') 7 \<and>
           bit (DOUT_Control s') 6 \<and> \<not> bit (DOUT_Control s') 7 \<and>
           semDataReadyForTreatment s' = 0 \<and> console s' = console power_on"
  using initial_actuation_is_STOP [of setup_ok power_on]
  by (simp add: setup_ok_def)

subsection \<open>One pass of the treatment loop\<close>

text \<open>The register updates \<^verbatim>\<open>|= (1 << k)\<close> and \<^verbatim>\<open>&= ~(1 << k)\<close> set and clear
  bit \<open>k\<close>.\<close>

lemma or_shift_set_bit: "w OR push_bit k 1 = set_bit k w" for w :: "32 word"
  by (simp only: set_bit_eq_or)

lemma and_not_shift_unset_bit: "w AND NOT (push_bit k 1) = unset_bit k w" for w :: "32 word"
  by (simp only: unset_bit_eq_and_not)

lemma actuation_DOUT_Control:
  "DOUT_Control (actuation result s) =
     (if float_gt (value' (classification result GO_LABEL_INDEX)) (1 / 2)
      then unset_bit 6 (set_bit 7 (DOUT_Control s))
      else if float_gt (value' (classification result STOP_LABEL_INDEX)) (1 / 2)
      then set_bit 6 (unset_bit 7 (DOUT_Control s))
      else DOUT_Control s)"
  unfolding actuation_def Let_def or_shift_set_bit and_not_shift_unset_bit
  by (simp add: ei_printf_def)

lemma actuation_console:
  "console (actuation result s) = console s @
     [(if float_gt (value' (classification result GO_LABEL_INDEX)) (1 / 2) then ''GO''
       else if float_gt (value' (classification result STOP_LABEL_INDEX)) (1 / 2) then ''STOP''
       else ''NOISE'') @ CRLF]"
  by (simp add: actuation_def ei_printf_def Let_def)

lemma actuation_frame:
  "i2sReadList (actuation result s) = i2sReadList s"
  "treatmentList (actuation result s) = treatmentList s"
  "semDataReadyForTreatment (actuation result s) = semDataReadyForTreatment s"
  "semErrorCallback (actuation result s) = semErrorCallback s"
  "i2sTransaction (actuation result s) = i2sTransaction s"
  "bufs (actuation result s) = bufs s"
  "features (actuation result s) = features s"
  "DOE (actuation result s) = DOE s"
  by (simp_all add: actuation_def ei_printf_def Let_def)

text \<open>A wake with a transaction at the head of the treatment list.\<close>

lemma controlThread_cycle_treat:
  assumes "0 < semDataReadyForTreatment s" and "treatmentList s = t # q"
    and "s1 = s\<lparr>semDataReadyForTreatment := semDataReadyForTreatment s - 1,
                 features := bufPtr (i2sTransaction s t)\<rparr>"
    and "run_classifier \<lparr>total_length = FEATURE_LENGTH, get_data = raw_feature_get_data s1\<rparr>
           = (res, result)"
  shows "controlThread_cycle FEATURE_LENGTH run_classifier s =
     (if res \<noteq> 0 then Return 1 (ei_printf (''run_classifier fail.'' @ CRLF) (actuation result s1))
      else Next ((actuation result s1)\<lparr>treatmentList := q,
                   i2sReadList := i2sReadList s @ [t]\<rparr>))"
  using assms
  by (simp add: controlThread_cycle_def controlThread_treat_def sem_wait_def List_head_def
      List_remove_def List_put_def Let_def actuation_frame)

lemma controlThread_cycle_spurious:
  assumes "0 < semDataReadyForTreatment s" and "treatmentList s = []"
  shows "controlThread_cycle fs run_classifier s =
           Next (s\<lparr>semDataReadyForTreatment := semDataReadyForTreatment s - 1\<rparr>)"
  using assms
  by (simp add: controlThread_cycle_def sem_wait_def List_head_def)

lemma controlThread_cycle_blocked:
  "semDataReadyForTreatment s = 0 \<Longrightarrow> controlThread_cycle fs run_classifier s = Blocked"
  by (simp add: controlThread_cycle_def sem_wait_def)

text \<open>C1: in every pass of the worker that reaches the classifier, whatever the result and
  whatever the lines showed before: a GO confidence strictly above 0.50 sets DIO7 and clears
  DIO6 and reports GO; otherwise a STOP confidence strictly above 0.50 clears DIO7 and sets
  DIO6 and reports STOP; otherwise NOISE is reported and the register is left as it was.
  Exactly one of the three is reported, no other bit of the register changes, and a GO
  confidence of exactly 0.50 is not reported as GO.\<close>

theorem actuation_decision:
  assumes "0 < semDataReadyForTreatment s" and "treatmentList s = t # q"
    and "run_classifier
           \<lparr>total_length = FEATURE_LENGTH,
            get_data = raw_feature_get_data
              (s\<lparr>semDataReadyForTreatment := semDataReadyForTreatment s - 1,
                 features := bufPtr (i2sTransaction s t)\<rparr>)\<rparr> = (res, result)"
  shows "\<exists>s' msg.
          (if res = 0
           then controlThread_cycle FEATURE_LENGTH run_classifier s = Next s' \<and>
                console s' = console s @ [msg]
           else controlThread_cycle FEATURE_LENGTH run_classifier s = Return 1 s' \<and>
                console s' = console s @ [msg, ''run_classifier fail.'' @ CRLF]) \<and>
          (if float_gt (value' (classification result GO_LABEL_INDEX)) (1 / 2)
           then msg = ''GO'' @ CRLF \<and>
                bit (DOUT_Control s') 7 \<and> \<not> bit (DOUT_Control s') 6
           else if float_gt (value' (classification result STOP_LABEL_INDEX)) (1 / 2)
           then msg = ''STOP'' @ CRLF \<and>
                \<not> bit (DOUT_Control s') 7 \<and> bit (DOUT_Control s') 6
           else msg = ''NOISE'' @ CRLF \<and> DOUT_Control s' = DOUT_Control s) \<and>
          (\<forall>n. n \<noteq> 6 \<and> n \<noteq> 7 \<longrightarrow> bit (DOUT_Control s') n = bit (DOUT_Control s) n) \<and>
          (value' (classification result GO_LABEL_INDEX) = Finite (1 / 2) \<longrightarrow>
             msg \<noteq> ''GO'' @ CRLF)"
proof -
  define s1 where "s1 = s\<lparr>semDataReadyForTreatment := semDataReadyForTreatment s - 1,
                 features := bufPtr (i2sTransaction s t)\<rparr>"
  define msg where "msg =
      (if float_gt (value' (classification result GO_LABEL_INDEX)) (1 / 2) then ''GO''
       else if float_gt (value' (classification result STOP_LABEL_INDEX)) (1 / 2) then ''STOP''
       else ''NOISE'') @ CRLF"
  define s' where "s' = (if res \<noteq> 0
      then ei_printf (''run_classifier fail.'' @ CRLF) (actuation result s1)
      else (actuation result s1)\<lparr>treatmentList := q, i2sReadList := i2sReadList s @ [t]\<rparr>)"
  have cyc: "controlThread_cycle FEATURE_LENGTH run_classifier s =
     (if res \<noteq> 0 then Return 1 (ei_printf (''run_classifier fail.'' @ CRLF) (actuation result s1))
      else Next ((actuation result s1)\<lparr>treatmentList := q,
                   i2sReadList := i2sReadList s @ [t]\<rparr>))"
    using assms by (intro controlThread_cycle_treat) (simp_all add: s1_def)
  have D1: "DOUT_Control s1 = DOUT_Control s" and C1: "console s1 = console s"
    by (simp_all add: s1_def)
  have D: "DOUT_Control s' =
     (if float_gt (value' (classification result GO_LABEL_INDEX)) (1 / 2)
      then unset_bit 6 (set_bit 7 (DOUT_Control s))
      else if float_gt (value' (classification result STOP_LABEL_INDEX)) (1 / 2)
      then set_bit 6 (unset_bit 7 (DOUT_Control s))
      else DOUT_Control s)"
    by (simp add: s'_def ei_printf_def actuation_DOUT_Control D1)
  have C: "console (actuation result s1) = console s @ [msg]"
    by (simp add: actuation_console C1 msg_def)
  have step: "if res = 0
           then controlThread_cycle FEATURE_LENGTH run_classifier s = Next s' \<and>
                console s' = console s @ [msg]
           else controlThread_cycle FEATURE_LENGTH run_classifier s = Return 1 s' \<and>
                console s' = console s @ [msg, ''run_classifier fail.'' @ CRLF]"
    unfolding cyc s'_def by (simp add: C ei_printf_def)
  have lines: "if float_gt (value' (classification result GO_LABEL_INDEX)) (1 / 2)
           then msg = ''GO'' @ CRLF \<and>
                bit (DOUT_Control s') 7 \<and> \<not> bit (DOUT_Control s') 6
           else if float_gt (value' (classification result STOP_LABEL_INDEX)) (1 / 2)
           then msg = ''STOP'' @ CRLF \<and>
                \<not> bit (DOUT_Control s') 7 \<and> bit (DOUT_Control s') 6
           else msg = ''NOISE'' @ CRLF \<and> DOUT_Control s' = DOUT_Control s"
    by (simp add: D msg_def bit_simps)
  have others: "\<forall>n. n \<noteq> 6 \<and> n \<noteq> 7 \<longrightarrow> bit (DOUT_Control s') n = bit (DOUT_Control s) n"
    by (simp add: D bit_simps)
  have boundary: "value' (classification result GO_LABEL_INDEX) = Finite (1 / 2) \<longrightarrow>
             msg \<noteq> ''GO'' @ CRLF"
    by (simp add: msg_def)
  from step lines others boundary show ?thesis by blast
qed

theorem actuation_decision_witness:
  "\<exists>s'. controlThread_cycle FEATURE_LENGTH (answers 0 (confidences (1 / 2) (1 / 10) (71 / 100)))
            (power_on\<lparr>semDataReadyForTreatment := 1, treatmentList := [I2sTransaction1],
               DOUT_Control := 128\<rparr>) = Next s' \<and>
        console s' = [''STOP'' @ CRLF] \<and>
        \<not> bit (DOUT_Control s') 7 \<and> bit (DOUT_Control s') 6"
proof -
  let ?w = "power_on\<lparr>semDataReadyForTreatment := 1, treatmentList := [I2sTransaction1],
              DOUT_Control := 128\<rparr>"
  let ?r = "confidences (1 / 2) (1 / 10) (71 / 100)"
  have h1: "0 < semDataReadyForTreatment ?w" by simp
  have h2: "treatmentList ?w = [I2sTransaction1]" by simp
  have h3: "answers 0 ?r
      \<lparr>total_length = FEATURE_LENGTH,
       get_data = raw_feature_get_data
         (?w\<lparr>semDataReadyForTreatment := semDataReadyForTreatment ?w - 1,
             features := bufPtr (i2sTransaction ?w I2sTransaction1)\<rparr>)\<rparr> = (0, ?r)"
    by (simp add: answers_def)
  have c: "console ?w = []" by (simp add: power_on_def)
  have g: "\<not> float_gt (value' (classification ?r GO_LABEL_INDEX)) (1 / 2)"
    and st: "float_gt (value' (classification ?r STOP_LABEL_INDEX)) (1 / 2)"
    by (simp_all add: confidences_def)
  from actuation_decision [where run_classifier = "answers 0 ?r", OF h1 h2 h3] show ?thesis
    unfolding c by (simp only: g st if_True if_False append_Nil simp_thms) blast
qed

subsection \<open>Predecessor lookup\<close>

lemma List_prev_SomeD:
  "List_prev q e = Some p \<Longrightarrow> \<exists>xs ys. q = xs @ p # e # ys \<and> e \<notin> set xs \<and> p \<noteq> e"
proof (induction q e rule: List_prev.induct)
  case (3 x y q e)
  show ?case
  proof (cases "y = e")
    case True
    with "3.prems" have "x \<noteq> e" "p = x" by (auto split: if_splits)
    with True have "x # y # q = [] @ p # e # q \<and> e \<notin> set [] \<and> p \<noteq> e" by simp
    then show ?thesis by blast
  next
    case False
    with "3.prems" have xe: "x \<noteq> e" and "List_prev (y # q) e = Some p"
      by (auto split: if_splits)
    with "3.IH" False obtain xs ys where "y # q = xs @ p # e # ys" "e \<notin> set xs" "p \<noteq> e"
      by blast
    with xe have "x # y # q = (x # xs) @ p # e # ys \<and> e \<notin> set (x # xs) \<and> p \<noteq> e" by simp
    then show ?thesis by blast
  qed
qed simp_all

lemma List_prev_found:
  "e \<notin> set xs \<Longrightarrow> p \<noteq> e \<Longrightarrow> List_prev (xs @ p # e # ys) e = Some p"
proof (induction xs)
  case Nil
  then show ?case by simp
next
  case (Cons x xs)
  then show ?case by (cases xs) auto
qed

lemma List_prev_NoneI:
  "(\<And>xs p ys. q \<noteq> xs @ p # e # ys) \<Longrightarrow> List_prev q e = None"
proof (induction q e rule: List_prev.induct)
  case (3 x y q e)
  show ?case
  proof (cases "x = e")
    case True
    then show ?thesis by simp
  next
    case xe: False
    have ye: "y \<noteq> e" using "3.prems" [of "[]" x q] by auto
    have "List_prev (y # q) e = None"
    proof (rule "3.IH" [OF xe ye])
      fix xs p ys show "y # q \<noteq> xs @ p # e # ys"
        using "3.prems" [of "x # xs" p ys] by simp
    qed
    with xe ye show ?thesis by simp
  qed
qed simp_all

lemma I2SreadCallback_moves:
  assumes "List_prev (i2sReadList s) t = Some p"
  shows "I2SreadCallback status t s =
           s\<lparr>i2sReadList := remove1 p (i2sReadList s),
             treatmentList := treatmentList s @ [p],
             semDataReadyForTreatment := semDataReadyForTreatment s + 1\<rparr>"
  using assms
  by (simp add: I2SreadCallback_def List_remove_def List_put_def sem_post_def Let_def)

lemma I2SreadCallback_idle:
  "List_prev (i2sReadList s) t = None \<Longrightarrow> I2SreadCallback status t s = s"
  by (simp add: I2SreadCallback_def)

text \<open>C4: a read completion with started transaction \<open>t\<close>. If \<open>t\<close> has a predecessor
  \<open>p\<close> in the read list, the callback takes exactly \<open>p\<close> out of the read list, appends it to
  the tail of the treatment list and posts the semaphore once, and changes nothing else. If
  \<open>t\<close> has no predecessor there, the callback changes nothing: no post, both lists as
  before.\<close>

theorem read_completion_handoff:
  "(\<forall>xs p ys. i2sReadList s = xs @ p # t # ys \<and> distinct (i2sReadList s) \<longrightarrow>
       I2SreadCallback status t s =
         s\<lparr>i2sReadList := xs @ t # ys,
           treatmentList := treatmentList s @ [p],
           semDataReadyForTreatment := semDataReadyForTreatment s + 1\<rparr>) \<and>
   ((\<forall>xs p ys. i2sReadList s \<noteq> xs @ p # t # ys) \<longrightarrow> I2SreadCallback status t s = s)"
proof (intro conjI allI impI)
  fix xs p ys
  assume a: "i2sReadList s = xs @ p # t # ys \<and> distinct (i2sReadList s)"
  then have "t \<notin> set xs" "p \<noteq> t" "p \<notin> set xs" by auto
  then have "List_prev (i2sReadList s) t = Some p" "remove1 p (i2sReadList s) = xs @ t # ys"
    using a by (simp_all add: List_prev_found remove1_append)
  then show "I2SreadCallback status t s =
         s\<lparr>i2sReadList := xs @ t # ys,
           treatmentList := treatmentList s @ [p],
           semDataReadyForTreatment := semDataReadyForTreatment s + 1\<rparr>"
    by (simp add: I2SreadCallback_moves)
next
  assume "\<forall>xs p ys. i2sReadList s \<noteq> xs @ p # t # ys"
  then have "List_prev (i2sReadList s) t = None" by (intro List_prev_NoneI) blast
  then show "I2SreadCallback status t s = s" by (rule I2SreadCallback_idle)
qed

theorem read_completion_handoff_witness:
  "I2SreadCallback 0 I2sTransaction2
     (power_on\<lparr>i2sReadList := [I2sTransaction1, I2sTransaction2, I2sTransaction3]\<rparr>) =
   power_on\<lparr>i2sReadList := [I2sTransaction2, I2sTransaction3],
     treatmentList := [I2sTransaction1], semDataReadyForTreatment := 1\<rparr> \<and>
   I2SreadCallback 0 I2sTransaction1
     (power_on\<lparr>i2sReadList := [I2sTransaction1, I2sTransaction2, I2sTransaction3]\<rparr>) =
   power_on\<lparr>i2sReadList := [I2sTransaction1, I2sTransaction2, I2sTransaction3]\<rparr>"
proof -
  let ?s = "power_on\<lparr>i2sReadList := [I2sTransaction1, I2sTransaction2, I2sTransaction3]\<rparr>"
  have none: "\<forall>xs p ys. i2sReadList ?s \<noteq> xs @ p # I2sTransaction1 # ys"
    by (auto simp: Cons_eq_append_conv)
  have some: "i2sReadList ?s = [] @ I2sTransaction1 # I2sTransaction2 # [I2sTransaction3] \<and>
      distinct (i2sReadList ?s)" by simp
  have "treatmentList ?s = []" "semDataReadyForTreatment ?s = 0" by (simp_all add: power_on_def)
  with read_completion_handoff [of ?s I2sTransaction2 0] some
    read_completion_handoff [of ?s I2sTransaction1 0] none
  show ?thesis by (simp del: append_Nil)
qed

subsection \<open>Spurious wake\<close>

text \<open>C8, amended: a wake that finds the treatment list empty is not fatal. The loop goes
  round with the state as it was but for the consumed count: the classifier is not called,
  the output register and both lists are unchanged, and nothing is printed.\<close>

theorem spurious_wake_continues:
  assumes "0 < semDataReadyForTreatment s" and "treatmentList s = []"
  shows "controlThread_cycle fs run_classifier s =
           Next (s\<lparr>semDataReadyForTreatment := semDataReadyForTreatment s - 1\<rparr>)"
  using assms by (rule controlThread_cycle_spurious)

theorem spurious_wake_continues_witness:
  "controlThread_cycle FEATURE_LENGTH (answers 0 (confidences 0 0 0))
     (power_on\<lparr>semDataReadyForTreatment := 2\<rparr>) =
   Next (power_on\<lparr>semDataReadyForTreatment := 1\<rparr>)"
proof -
  let ?s = "power_on\<lparr>semDataReadyForTreatment := 2\<rparr>"
  have "0 < semDataReadyForTreatment ?s" by simp
  moreover have "treatmentList ?s = []" by (simp add: power_on_def)
  ultimately show ?thesis
    using spurious_wake_continues [of ?s FEATURE_LENGTH "answers 0 (confidences 0 0 0)"]
    by simp
qed

text \<open>C8 as stated has the worker log the event. At power-on values with one count on the
  semaphore and an empty treatment list the pass leaves the console empty.\<close>

theorem spurious_wake_not_logged:
  "controlThread_cycle FEATURE_LENGTH (answers 0 (confidences 0 0 0))
     (power_on\<lparr>semDataReadyForTreatment := 1\<rparr>) = Next power_on \<and>
   console power_on = []"
  by (simp add: controlThread_cycle_def sem_wait_def List_head_def power_on_def)

subsection \<open>Invariants of the interleaving\<close>

lemma controlThread_cycle_outcomes:
  assumes "0 < semDataReadyForTreatment s" and "treatmentList s = t # q"
  shows "\<exists>s'. i2sTransaction s' = i2sTransaction s \<and>
           semDataReadyForTreatment s' = semDataReadyForTreatment s - 1 \<and>
           (controlThread_cycle fs c s = Halt s' \<and> i2sReadList s' = i2sReadList s \<and>
              treatmentList s' = treatmentList s \<or>
            controlThread_cycle fs c s = Return 1 s' \<and> i2sReadList s' = i2sReadList s \<and>
              treatmentList s' = treatmentList s \<or>
            controlThread_cycle fs c s = Next s' \<and> i2sReadList s' = i2sReadList s @ [t] \<and>
              treatmentList s' = q)"
  using assms
  by (auto simp: controlThread_cycle_def controlThread_treat_def sem_wait_def List_head_def
      List_remove_def List_put_def Let_def actuation_frame ei_printf_def split: prod.splits)

lemma queues_ok_I2SreadCallback:
  assumes "queues_ok s"
  shows "queues_ok (I2SreadCallback status t s)"
proof (cases "List_prev (i2sReadList s) t")
  case None
  then show ?thesis using assms by (simp add: I2SreadCallback_idle)
next
  case (Some p)
  then obtain xs ys where q: "i2sReadList s = xs @ p # t # ys"
    using List_prev_SomeD by fastforce
  with assms have "remove1 p (i2sReadList s) = xs @ t # ys"
    by (auto simp: queues_ok_def remove1_append)
  with assms q show ?thesis
    unfolding I2SreadCallback_moves [OF Some] queues_ok_def by auto
qed

lemma config_ok_I2SreadCallback:
  assumes "config_ok (th, s)"
  shows "config_ok (th, I2SreadCallback status t s)"
proof (cases "List_prev (i2sReadList s) t")
  case None
  then show ?thesis using assms by (simp add: I2SreadCallback_idle)
next
  case (Some p)
  have "queues_ok (I2SreadCallback status t s)"
    using assms by (simp add: config_ok_def queues_ok_I2SreadCallback)
  then show ?thesis
    using assms unfolding config_ok_def
    by (simp add: I2SreadCallback_moves [OF Some] descriptors_ok_def)
qed

lemma queues_ok_same:
  "queues_ok s \<Longrightarrow> i2sReadList s' = i2sReadList s \<Longrightarrow> treatmentList s' = treatmentList s \<Longrightarrow>
   queues_ok s'"
  by (simp add: queues_ok_def)

lemma queues_ok_returned:
  assumes "queues_ok s" and "treatmentList s = t # q"
    and "i2sReadList s' = i2sReadList s @ [t]" and "treatmentList s' = q"
  shows "queues_ok s'"
proof -
  from assms have "set (i2sReadList s') \<union> set (treatmentList s') =
      set (i2sReadList s) \<union> set (treatmentList s)"
    by auto
  moreover from assms have "distinct (i2sReadList s')" "distinct (treatmentList s')"
    "set (i2sReadList s') \<inter> set (treatmentList s') = {}" "i2sReadList s' \<noteq> []"
    by (auto simp: queues_ok_def)
  ultimately show ?thesis using assms(1) by (simp add: queues_ok_def)
qed

lemma config_ok_cycle:
  assumes ok: "config_ok (Running, s)"
    and f: "fire fs (Cycle c) (Running, s) = Some c'"
  shows "config_ok c'"
proof (cases "treatmentList s")
  case Nil
  with ok have "semDataReadyForTreatment s = 0" by (simp add: config_ok_def)
  with f show ?thesis by (simp add: controlThread_cycle_blocked)
next
  case (Cons t q)
  from ok have qs: "queues_ok s" and ds: "descriptors_ok s"
    and n: "semDataReadyForTreatment s = length (treatmentList s)"
    by (simp_all add: config_ok_def)
  from n Cons have pos: "0 < semDataReadyForTreatment s" by simp
  from controlThread_cycle_outcomes [OF pos Cons, of fs c] obtain s' where
    d: "i2sTransaction s' = i2sTransaction s"
    and n': "semDataReadyForTreatment s' = semDataReadyForTreatment s - 1"
    and r: "controlThread_cycle fs c s = Halt s' \<and> i2sReadList s' = i2sReadList s \<and>
              treatmentList s' = treatmentList s \<or>
            controlThread_cycle fs c s = Return 1 s' \<and> i2sReadList s' = i2sReadList s \<and>
              treatmentList s' = treatmentList s \<or>
            controlThread_cycle fs c s = Next s' \<and> i2sReadList s' = i2sReadList s @ [t] \<and>
              treatmentList s' = q"
    by blast
  from d ds have ds': "descriptors_ok s'" by (simp add: descriptors_ok_def)
  from r consider
      (halt) "controlThread_cycle fs c s = Halt s'" "i2sReadList s' = i2sReadList s"
        "treatmentList s' = treatmentList s"
    | (ret) "controlThread_cycle fs c s = Return 1 s'" "i2sReadList s' = i2sReadList s"
        "treatmentList s' = treatmentList s"
    | (nxt) "controlThread_cycle fs c s = Next s'" "i2sReadList s' = i2sReadList s @ [t]"
        "treatmentList s' = q"
    by blast
  then show ?thesis
  proof cases
    case halt
    with f have "c' = (Spinning, s')" by simp
    moreover have "queues_ok s'" using qs halt(2,3) by (rule queues_ok_same)
    ultimately show ?thesis using ds' n n' halt(3) by (simp add: config_ok_def)
  next
    case ret
    with f have "c' = (Exited 1, s')" by simp
    moreover have "queues_ok s'" using qs ret(2,3) by (rule queues_ok_same)
    ultimately show ?thesis using ds' n n' ret(3) by (simp add: config_ok_def)
  next
    case nxt
    with f have "c' = (Running, s')" by simp
    moreover have "queues_ok s'" using qs Cons nxt(2,3) by (rule queues_ok_returned)
    ultimately show ?thesis using ds' n n' nxt(3) Cons by (simp add: config_ok_def)
  qed
qed

lemma config_ok_fire:
  assumes "config_ok c" and "fire fs e c = Some c'"
  shows "config_ok c'"
proof (cases c)
  case (Pair th s)
  show ?thesis
  proof (cases e)
    case (Completion status t)
    with assms Pair show ?thesis
      by (auto simp: config_ok_I2SreadCallback split: if_splits)
  next
    case (Failure status t)
    with assms Pair show ?thesis by (auto simp: I2SerrCallback_def)
  next
    case (Cycle cl)
    with assms Pair have "th = Running" by (auto split: if_splits)
    with assms Pair Cycle show ?thesis using config_ok_cycle by blast
  qed
qed

lemma config_ok_exec:
  "config_ok c \<Longrightarrow> exec fs es c = Some c' \<Longrightarrow> config_ok c'"
proof (induction es arbitrary: c)
  case Nil
  then show ?case by simp
next
  case (Cons e es)
  then show ?case by (auto split: option.splits dest: config_ok_fire)
qed

lemma config_ok_setup:
  assumes "controlThread_setup env s0 = Some s"
  shows "config_ok (Running, s)"
  using controlThread_setup_state [OF assms]
  by (simp add: config_ok_def queues_ok_def i2sTransactionList_def)

lemma queues_ok_lengths:
  assumes "queues_ok s"
  shows "length (i2sReadList s) + length (treatmentList s) = NUMBUFS"
    and "length (treatmentList s) \<le> NUMBUFS - 1"
proof -
  from assms have "card (set (i2sReadList s) \<union> set (treatmentList s)) = 3"
    by (simp add: queues_ok_def i2sTransactionList_def)
  moreover from assms have "distinct (i2sReadList s @ treatmentList s)"
    by (simp add: queues_ok_def)
  then have "card (set (i2sReadList s @ treatmentList s)) =
      length (i2sReadList s @ treatmentList s)"
    by (rule distinct_card)
  then have "card (set (i2sReadList s) \<union> set (treatmentList s)) =
      length (i2sReadList s) + length (treatmentList s)"
    by simp
  ultimately show l: "length (i2sReadList s) + length (treatmentList s) = NUMBUFS" by simp
  from assms have "i2sReadList s \<noteq> []" by (simp add: queues_ok_def)
  then have "1 \<le> length (i2sReadList s)" by (cases "i2sReadList s") simp_all
  with l show "length (treatmentList s) \<le> NUMBUFS - 1" by arith
qed

text \<open>C2: at every observation point of every run from a completed setup, whatever the
  order of read completions, interface errors and worker passes: no transaction is in both
  lists, the two lists together hold exactly the three transactions, none twice, and the
  treatment list holds at most two.\<close>

theorem queues_partition_transactions:
  assumes "controlThread_setup env s0 = Some s1"
    and "exec fs es (Running, s1) = Some (th, s)"
  shows "set (i2sReadList s) \<inter> set (treatmentList s) = {} \<and>
         set (i2sReadList s) \<union> set (treatmentList s) =
           {I2sTransaction1, I2sTransaction2, I2sTransaction3} \<and>
         length (i2sReadList s) + length (treatmentList s) = NUMBUFS \<and>
         distinct (i2sReadList s) \<and> distinct (treatmentList s) \<and>
         length (treatmentList s) \<le> NUMBUFS - 1"
proof -
  have "config_ok (th, s)"
    using config_ok_exec [OF config_ok_setup [OF assms(1)] assms(2)] .
  then have q: "queues_ok s" by (simp add: config_ok_def)
  from q have "set (i2sReadList s) \<inter> set (treatmentList s) = {}"
    "set (i2sReadList s) \<union> set (treatmentList s) =
       {I2sTransaction1, I2sTransaction2, I2sTransaction3}"
    "distinct (i2sReadList s)" "distinct (treatmentList s)"
    by (auto simp: queues_ok_def i2sTransactionList_def)
  with queues_ok_lengths [OF q] show ?thesis by blast
qed

lemma setup_power_on: "controlThread_setup setup_ok power_on = Some started"
proof -
  obtain s' where s': "controlThread_setup setup_ok power_on = Some s'"
    using controlThread_setup_ok [of setup_ok power_on] by (auto simp: setup_ok_def)
  then obtain s2 where s2: "I2S_setup setup_ok power_on = Some s2"
    and eq: "s' = s2\<lparr>semDataReadyForTreatment := 0,
               DOE := DOE s2 OR (push_bit 7 1 OR push_bit 6 1),
               DOUT_Control := (DOUT_Control s2 OR push_bit 6 1) AND NOT (push_bit 7 1)\<rparr>"
    by (rule controlThread_setup_cases)
  have d: "i2sTransaction s2 = (\<lambda>t. \<lparr>bufPtr = Some (buf_of t), bufSize = BUFSIZE\<rparr>)"
    using I2S_setup_lists(3) [OF s2] by (auto simp: descriptors_ok_def)
  have rest: "bufs s2 = bufs power_on" "features s2 = features power_on"
    "console s2 = console power_on" "semErrorCallback s2 = semErrorCallback power_on"
    "globals.more s2 = globals.more power_on"
    using s2
    by (auto simp: I2S_setup_def fold_I2S_setup_body I2S_setup_body_def Let_def split: if_splits)
  have "s' = started"
    by (rule globals.equality)
      (simp_all add: eq started_def I2S_setup_lists [OF s2] d rest, simp_all add: power_on_def)
  with s' show ?thesis by simp
qed

lemmas run_simps =
  I2SreadCallback_def I2SerrCallback_def controlThread_cycle_def controlThread_treat_def
  sem_wait_def sem_post_def List_head_def List_remove_def List_put_def Let_def
  actuation_def ei_printf_def answers_def confidences_def noise_def

theorem queues_partition_transactions_witness:
  "case exec FEATURE_LENGTH
          [Completion 0 I2sTransaction2, Completion 0 I2sTransaction3, Cycle noise,
           Completion 0 I2sTransaction1] (Running, started) of
     None \<Rightarrow> False
   | Some (th, s) \<Rightarrow>
       i2sReadList s = [I2sTransaction1] \<and>
       treatmentList s = [I2sTransaction2, I2sTransaction3] \<and>
       set (i2sReadList s) \<inter> set (treatmentList s) = {} \<and>
       set (i2sReadList s) \<union> set (treatmentList s) =
         {I2sTransaction1, I2sTransaction2, I2sTransaction3} \<and>
       length (treatmentList s) \<le> NUMBUFS - 1"
proof -
  obtain th s where e: "exec FEATURE_LENGTH
          [Completion 0 I2sTransaction2, Completion 0 I2sTransaction3, Cycle noise,
           Completion 0 I2sTransaction1] (Running, started) = Some (th, s)"
    and l: "i2sReadList s = [I2sTransaction1]"
      "treatmentList s = [I2sTransaction2, I2sTransaction3]"
    by (simp add: started_def power_on_def run_simps)
  from queues_partition_transactions [OF setup_power_on e] l show ?thesis
    unfolding e by simp
qed

subsection \<open>Classifier failure\<close>

lemma fire_Exited: "fire fs (Cycle c) (Exited r, s) = None"
  by simp

text \<open>C5: in every run from a completed setup, a pass of the worker in which the classifier
  returns a status other than zero ends with the thread function returning 1: the loop is
  left, the classifier is not called again and the worker takes no further step. Both lists
  are as before the pass, so they are still disjoint and still hold the three transactions
  between them, the failed one at the head of the treatment list.\<close>

theorem classifier_failure_stops_worker:
  assumes "controlThread_setup env s0 = Some s1"
    and "exec FEATURE_LENGTH es (Running, s1) = Some (Running, s)"
    and "treatmentList s = t # q"
    and "run_classifier
           \<lparr>total_length = FEATURE_LENGTH,
            get_data = raw_feature_get_data
              (s\<lparr>semDataReadyForTreatment := semDataReadyForTreatment s - 1,
                 features := bufPtr (i2sTransaction s t)\<rparr>)\<rparr> = (res, result)"
    and "res \<noteq> 0"
  shows "\<exists>s'. controlThread_cycle FEATURE_LENGTH run_classifier s = Return 1 s' \<and>
           fire FEATURE_LENGTH (Cycle run_classifier) (Running, s) = Some (Exited 1, s') \<and>
           (\<forall>c. fire FEATURE_LENGTH (Cycle c) (Exited 1, s') = None) \<and>
           controlThread_loop FEATURE_LENGTH (run_classifier # cs) s = ([], Return 1 s') \<and>
           i2sReadList s' = i2sReadList s \<and> treatmentList s' = t # q \<and>
           set (i2sReadList s') \<inter> set (treatmentList s') = {} \<and>
           set (i2sReadList s') \<union> set (treatmentList s') =
             {I2sTransaction1, I2sTransaction2, I2sTransaction3} \<and>
           distinct (i2sReadList s') \<and> distinct (treatmentList s')"
proof -
  have ok: "config_ok (Running, s)"
    using config_ok_exec [OF config_ok_setup [OF assms(1)] assms(2)] .
  with assms(3) have pos: "0 < semDataReadyForTreatment s" by (simp add: config_ok_def)
  define s' where "s' = ei_printf (''run_classifier fail.'' @ CRLF) (actuation result
      (s\<lparr>semDataReadyForTreatment := semDataReadyForTreatment s - 1,
         features := bufPtr (i2sTransaction s t)\<rparr>))"
  have cyc: "controlThread_cycle FEATURE_LENGTH run_classifier s = Return 1 s'"
    unfolding controlThread_cycle_treat
      [where run_classifier = run_classifier, OF pos assms(3) refl assms(4)] s'_def
    using assms(5) by simp
  have r: "i2sReadList s' = i2sReadList s" and tr: "treatmentList s' = t # q"
    by (simp_all add: s'_def ei_printf_def actuation_frame assms(3))
  from ok have "queues_ok s" by (simp add: config_ok_def)
  then have "queues_ok s'" using r tr assms(3) by (simp add: queues_ok_def)
  then have q: "set (i2sReadList s') \<inter> set (treatmentList s') = {}"
    "set (i2sReadList s') \<union> set (treatmentList s') =
       {I2sTransaction1, I2sTransaction2, I2sTransaction3}"
    "distinct (i2sReadList s')" "distinct (treatmentList s')"
    by (auto simp: queues_ok_def i2sTransactionList_def)
  have f: "fire FEATURE_LENGTH (Cycle run_classifier) (Running, s) = Some (Exited 1, s')"
    unfolding fire.simps cyc by simp
  have l: "controlThread_loop FEATURE_LENGTH (run_classifier # cs) s = ([], Return 1 s')"
    unfolding controlThread_loop.simps cyc by simp
  show ?thesis
    using cyc f l r tr q fire_Exited by blast
qed

theorem classifier_failure_stops_worker_witness:
  "\<exists>s'. controlThread_cycle FEATURE_LENGTH (answers 3 (confidences 0 0 0))
            (I2SreadCallback 0 I2sTransaction2 started) = Return 1 s' \<and>
        controlThread_loop FEATURE_LENGTH [answers 3 (confidences 0 0 0), noise]
            (I2SreadCallback 0 I2sTransaction2 started) = ([], Return 1 s') \<and>
        i2sReadList s' = [I2sTransaction2, I2sTransaction3] \<and>
        treatmentList s' = [I2sTransaction1]"
proof -
  let ?s = "I2SreadCallback 0 I2sTransaction2 started"
  let ?c = "answers 3 (confidences 0 0 0)"
  have e: "exec FEATURE_LENGTH [Completion 0 I2sTransaction2] (Running, started) =
      Some (Running, ?s)"
    by (simp add: started_def)
  have r: "i2sReadList ?s = [I2sTransaction2, I2sTransaction3]"
    and t: "treatmentList ?s = [I2sTransaction1]"
    by (simp_all add: started_def power_on_def run_simps)
  have c: "?c \<lparr>total_length = FEATURE_LENGTH,
            get_data = raw_feature_get_data
              (?s\<lparr>semDataReadyForTreatment := semDataReadyForTreatment ?s - 1,
                 features := bufPtr (i2sTransaction ?s I2sTransaction1)\<rparr>)\<rparr> =
           (3, confidences 0 0 0)"
    by (simp add: answers_def)
  have n: "(3::int) \<noteq> 0" by simp
  from classifier_failure_stops_worker [where run_classifier = ?c and cs = "[noise]",
      OF setup_power_on e t c n]
  show ?thesis unfolding r by blast
qed

subsection \<open>Round trip of a transaction\<close>

text \<open>C7: in every run from a completed setup, a pass of the worker that treats transaction
  \<open>t\<close> and goes round the loop has put \<open>t\<close> at the tail of the read list and taken it off
  the treatment list, and the descriptor of \<open>t\<close> is what \<^verbatim>\<open>I2S_setup\<close> made it: the same
  buffer pointer and the size \<^verbatim>\<open>BUFSIZE\<close>.\<close>

theorem buffer_identity_round_trip:
  assumes "controlThread_setup env s0 = Some s1"
    and "exec fs es (Running, s1) = Some (Running, s)"
    and "treatmentList s = t # q"
    and "controlThread_cycle fs c s = Next s'"
  shows "i2sReadList s' = i2sReadList s @ [t] \<and> treatmentList s' = q \<and>
         t \<notin> set (treatmentList s') \<and>
         i2sTransaction s' t = i2sTransaction s1 t \<and>
         bufPtr (i2sTransaction s' t) = Some (buf_of t) \<and>
         bufSize (i2sTransaction s' t) = BUFSIZE"
proof -
  have ok1: "config_ok (Running, s1)" by (rule config_ok_setup [OF assms(1)])
  have ok: "config_ok (Running, s)" by (rule config_ok_exec [OF ok1 assms(2)])
  with assms(3) have pos: "0 < semDataReadyForTreatment s" by (simp add: config_ok_def)
  from controlThread_cycle_outcomes [OF pos assms(3), of fs c] assms(4)
  have l: "i2sReadList s' = i2sReadList s @ [t]" "treatmentList s' = q"
    and d: "i2sTransaction s' = i2sTransaction s"
    by auto
  from ok assms(3) have "t \<notin> set q" by (simp add: config_ok_def queues_ok_def)
  moreover from ok ok1 have "i2sTransaction s t = \<lparr>bufPtr = Some (buf_of t), bufSize = BUFSIZE\<rparr>"
    "i2sTransaction s1 t = \<lparr>bufPtr = Some (buf_of t), bufSize = BUFSIZE\<rparr>"
    by (simp_all add: config_ok_def descriptors_ok_def)
  ultimately show ?thesis using l d by simp
qed

theorem buffer_identity_round_trip_witness:
  "i2sReadList (I2SreadCallback 0 I2sTransaction2 started) = [I2sTransaction2, I2sTransaction3] \<and>
   treatmentList (I2SreadCallback 0 I2sTransaction2 started) = [I2sTransaction1] \<and>
   (\<exists>s'. controlThread_cycle FEATURE_LENGTH noise (I2SreadCallback 0 I2sTransaction2 started)
           = Next s' \<and>
         i2sReadList s' = [I2sTransaction2, I2sTransaction3, I2sTransaction1] \<and>
         treatmentList s' = [] \<and>
         bufPtr (i2sTransaction s' I2sTransaction1) = Some Buf1 \<and>
         bufSize (i2sTransaction s' I2sTransaction1) = BUFSIZE)"
proof -
  let ?s = "I2SreadCallback 0 I2sTransaction2 started"
  have e: "exec FEATURE_LENGTH [Completion 0 I2sTransaction2] (Running, started) =
      Some (Running, ?s)"
    by (simp add: started_def)
  have r: "i2sReadList ?s = [I2sTransaction2, I2sTransaction3]"
    and t: "treatmentList ?s = [I2sTransaction1]"
    by (simp_all add: started_def power_on_def run_simps)
  obtain s' where c: "controlThread_cycle FEATURE_LENGTH noise ?s = Next s'"
    by (simp add: started_def power_on_def run_simps)
  have "i2sTransaction started I2sTransaction1 = \<lparr>bufPtr = Some Buf1, bufSize = BUFSIZE\<rparr>"
    by (simp add: started_def)
  with buffer_identity_round_trip [OF setup_power_on e t c] r t c
  show ?thesis by simp
qed

subsection \<open>Bursts of completions\<close>








subsection \<open>Interface error\<close>

text \<open>C3: the claim has the error callback wake \<^verbatim>\<open>ei_main\<close>, which then cancels the worker.
  In the code the callback leaves every global as it was. After an interface error the count
  of \<^verbatim>\<open>semErrorCallback\<close> is still the zero that \<^verbatim>\<open>sem_init\<close> gave it, the wait of
  \<^verbatim>\<open>ei_main\<close> does not return, the worker is still running, and the next completion is
  handed over and treated as if nothing had happened.\<close>

theorem interface_error_not_signalled:
  "ei_main_start main_ok power_on = Some power_on \<and>
   I2SerrCallback 1 I2sTransaction1 started = started \<and>
   exec FEATURE_LENGTH [Failure 1 I2sTransaction1] (Running, started) = Some (Running, started) \<and>
   ei_main_wait (Running, started) = None \<and>
   exec FEATURE_LENGTH [Failure 1 I2sTransaction1, Completion 0 I2sTransaction2, Cycle noise]
     (Running, started) =
   Some (Running, started\<lparr>i2sReadList := [I2sTransaction2, I2sTransaction3, I2sTransaction1],
     features := Some Buf1, console := [''NOISE'' @ CRLF]\<rparr>)"
  by (simp add: ei_main_start_def main_ok_def ei_main_wait_def started_def power_on_def
      run_simps)

subsection \<open>Pull accessor\<close>

text \<open>C9: with a buffer bound to \<^verbatim>\<open>features\<close>, \<open>offset + len\<close> within its count of 16-bit
  samples and an output region of at least \<open>len\<close> floats, \<^verbatim>\<open>raw_feature_get_data\<close> returns
  0 and the region with its first \<open>len\<close> entries replaced: entry \<open>i\<close> is the sample at
  \<open>offset + i\<close> of the bound buffer divided by \<open>2^15\<close>. The rest of the region is as it was.
  The result is a function of the bound buffer, the offset, the length and the region, and
  no global is written.\<close>

theorem raw_feature_get_data_converts:
  assumes "features s = Some b"
    and "offset + len \<le> length (bufs s b) div 2"
    and "len \<le> length out_ptr"
  shows "\<exists>out'. raw_feature_get_data s offset len out_ptr = Inr (0, out') \<and>
           length out' = length out_ptr \<and>
           (\<forall>i<len. out' ! i =
              Finite (real_of_int (sint (int16_at (bufs s b) (offset + i))) / 2 ^ 15)) \<and>
           (\<forall>i. len \<le> i \<and> i < length out_ptr \<longrightarrow> out' ! i = out_ptr ! i)"
proof -
  let ?out = "map (\<lambda>i. q15_to_float (int16_at (bufs s b) (offset + i))) [0..<len]
                @ drop len out_ptr"
  from assms(2) have "2 * (offset + len) \<le> length (bufs s b)" by arith
  with assms have r: "raw_feature_get_data s offset len out_ptr = Inr (0, ?out)"
    by (simp add: raw_feature_get_data_def arm_q15_to_float_def)
  have l: "length ?out = length out_ptr" using assms(3) by simp
  have a: "\<forall>i<len. ?out ! i =
      Finite (real_of_int (sint (int16_at (bufs s b) (offset + i))) / 2 ^ 15)"
    by (simp add: nth_append q15_to_float_def)
  have k: "\<forall>i. len \<le> i \<and> i < length out_ptr \<longrightarrow> ?out ! i = out_ptr ! i"
    using assms(3) by (auto simp: nth_append)
  from r l a k show ?thesis by blast
qed

theorem raw_feature_get_data_converts_witness:
  "raw_feature_get_data
     (power_on\<lparr>features := Some Buf2,
        bufs := (\<lambda>b. [0x00, 0x40, 0x00, 0xC0, 0xFF, 0x7F, 0x01, 0x00])\<rparr>)
     1 2 [NaN, NaN, NaN] =
   Inr (0, [Finite (- 1 / 2), Finite (32767 / 32768), NaN])"
proof -
  let ?s = "power_on\<lparr>features := Some Buf2,
        bufs := (\<lambda>b. [0x00, 0x40, 0x00, 0xC0, 0xFF, 0x7F, 0x01, 0x00])\<rparr>"
  have f: "features ?s = Some Buf2" by simp
  have b: "1 + 2 \<le> length (bufs ?s Buf2) div 2" by simp
  have o: "2 \<le> length [NaN, NaN, NaN]" by simp
  from raw_feature_get_data_converts [OF f b o] obtain out' where
    r: "raw_feature_get_data ?s 1 2 [NaN, NaN, NaN] = Inr (0, out')"
    and l: "length out' = 3"
    and a: "\<forall>i<2. out' ! i = Finite (real_of_int (sint (int16_at (bufs ?s Buf2) (1 + i))) / 2 ^ 15)"
    and k: "\<forall>i. 2 \<le> i \<and> i < 3 \<longrightarrow> out' ! i = [NaN, NaN, NaN] ! i"
    by auto
  from a have "out' ! 0 = Finite (- 1 / 2)" "out' ! 1 = Finite (32767 / 32768)"
    by (simp_all add: int16_at_def)
  moreover from k have "out' ! 2 = NaN" by simp
  ultimately have "out' = [Finite (- 1 / 2), Finite (32767 / 32768), NaN]"
    using l by (simp add: list_eq_iff_nth_eq less_Suc_eq numeral_3_eq_3 numeral_2_eq_2)
  with r show ?thesis by simp
qed

end
